theory Spec2Isabelle
  imports Main "HOL-Library.Multiset"
begin

section \<open>Python primitives used by 2p-2runner\<close>

text \<open>
  The runner is a Python script. Its text processing only uses \<open>str.find\<close>,
  \<open>str.replace\<close>, the substring test \<open>in\<close>, \<open>len\<close> and slicing; its file selection
  uses \<open>random.sample\<close> and an extended slice. These primitives are modelled here with
  their Python meaning: \<open>find\<close> answers \<open>-1\<close> when there is no occurrence, and a slice
  bound that is negative counts from the end of the sequence. A string is a list of
  characters, so \<open>length\<close> is Python's \<open>len\<close> on text whose characters are single units.
\<close>

datatype py_error =
  AttributeError | TypeError | ValueError | NotImplementedError | SystemExit | OtherError

text \<open>The outcome of running a piece of code that may raise or may never return.\<close>

datatype 'a run = Diverges | Raises py_error | Returns 'a

fun startswith :: "string \<Rightarrow> string \<Rightarrow> bool" where
  "startswith s [] = True"
| "startswith [] (y # ys) = False"
| "startswith (x # xs) (y # ys) = (x = y \<and> startswith xs ys)"

text \<open>The least index at which \<open>sub\<close> occurs in \<open>s\<close>, if there is one.\<close>

fun find_idx :: "string \<Rightarrow> string \<Rightarrow> nat option" where
  "find_idx [] sub = (if sub = [] then Some 0 else None)"
| "find_idx (x # xs) sub =
     (if startswith (x # xs) sub then Some 0 else map_option Suc (find_idx xs sub))"

text \<open>\<open>s.find(sub)\<close>\<close>

definition py_find :: "string \<Rightarrow> string \<Rightarrow> int" where
  "py_find s sub = (case find_idx s sub of None \<Rightarrow> - 1 | Some k \<Rightarrow> int k)"

text \<open>
  How Python brings a slice bound or a search start into \<open>0..n\<close>: a negative bound has
  the length added once, and the result is clamped.
\<close>

definition py_clamp :: "int \<Rightarrow> int \<Rightarrow> nat" where
  "py_clamp n i = (if i < 0 then nat (max 0 (i + n)) else nat (min i n))"

text \<open>\<open>s.find(sub, start)\<close>\<close>

definition py_find_from :: "string \<Rightarrow> string \<Rightarrow> int \<Rightarrow> int" where
  "py_find_from s sub start =
     (if start > int (length s) then - 1
      else (let a = py_clamp (int (length s)) start in
            case find_idx (drop a s) sub of None \<Rightarrow> - 1 | Some k \<Rightarrow> int (a + k)))"

text \<open>\<open>s[lo:hi]\<close>\<close>

definition py_slice :: "'a list \<Rightarrow> int \<Rightarrow> int \<Rightarrow> 'a list" where
  "py_slice s lo hi =
     (let n = int (length s); a = py_clamp n lo; b = py_clamp n hi
      in take (b - a) (drop a s))"

text \<open>\<open>sub in s\<close> for two strings\<close>

definition py_in :: "string \<Rightarrow> string \<Rightarrow> bool" where
  "py_in sub s = (find_idx s sub \<noteq> None)"

text \<open>
  \<open>s.replace(old, new)\<close>: the occurrences of \<open>old\<close> are replaced from left to right,
  without overlap. With an empty \<open>old\<close> Python puts \<open>new\<close> before every character and
  at the end.
\<close>

function replace_scan :: "string \<Rightarrow> string \<Rightarrow> string \<Rightarrow> string" where
  "replace_scan [] old new = []"
| "replace_scan (x # xs) old new =
     (if old \<noteq> [] \<and> startswith (x # xs) old
      then new @ replace_scan (drop (length old) (x # xs)) old new
      else x # replace_scan xs old new)"
  by pat_completeness auto
termination
  by (relation "measure (\<lambda>(s, old, new). length s)") (auto simp: neq_Nil_conv)

definition py_replace :: "string \<Rightarrow> string \<Rightarrow> string \<Rightarrow> string" where
  "py_replace s old new =
     (if old = [] then new @ concat (map (\<lambda>c. c # new) s) else replace_scan s old new)"

section \<open>The file system seen by the runner\<close>

text \<open>
  A file is named by its file name inside the input directory. Reading is a function
  from names to contents, \<open>None\<close> where opening or decoding the file raises. The output
  directory is a map from file names to the text written; a name for which \<open>wr\<close> is
  false cannot be opened for writing.
\<close>

type_synonym reader = "string \<Rightarrow> string option"
type_synonym out_dir = "string \<rightharpoonup> string"

definition ds_store :: string where
  "ds_store = ''.DS_Store''"

text \<open>
  \<open>import_text\<close>: any exception while reading is caught, a message is printed and the
  function falls off its end, so the caller receives \<open>None\<close>.
\<close>

definition import_text :: "reader \<Rightarrow> string \<Rightarrow> string option" where
  "import_text rd file = rd file"

text \<open>\<open>export_text\<close>: a failing write is caught and only prints a message.\<close>

definition export_text :: "(string \<Rightarrow> bool) \<Rightarrow> out_dir \<Rightarrow> string \<Rightarrow> string \<Rightarrow> out_dir" where
  "export_text wr out export filename = (if wr filename then out(filename \<mapsto> export) else out)"

section \<open>Markup section extraction\<close>

definition description_h2 :: string where
  \<open>description_h2 = ''<h2 class="heading-size-3">Description</h2>''\<close>

text \<open>
  The tag-stripping loop of \<open>html_slice\<close>. The source gives no bound for it, so the
  model is a partial function: \<open>None\<close> means that the loop never leaves.
\<close>

partial_function (option) html_strip_loop :: "string \<Rightarrow> string option" where
  "html_strip_loop test2 =
     (if py_find test2 ''<'' > 0
      then (let k = py_find test2 ''<''; l = py_find test2 ''>''
            in html_strip_loop (py_slice test2 0 k @ py_slice test2 (l + 1) (int (length test2))))
      else Some test2)"

text \<open>
  \<open>html_slice\<close>. The content is \<open>None\<close> when the file could not be read; the method call
  on \<open>None\<close> raises inside the \<open>try\<close> and the function returns \<open>None\<close>.
\<close>

definition html_slice :: "string option \<Rightarrow> string option run" where
  "html_slice content =
     (case content of
        None \<Rightarrow> Returns None
      | Some c \<Rightarrow>
          (let i = py_find c description_h2 in
           if i = - 1 then Returns None
           else (let test = py_slice c (i + 43) (int (length c));
                     j = py_find test ''<h2'';
                     test2 = py_slice test 0 j
                 in case html_strip_loop test2 of
                      None \<Rightarrow> Diverges
                    | Some r \<Rightarrow> Returns (Some r))))"

section \<open>Markdown section extraction\<close>

text \<open>
  \<open>markdown_slice\<close>. The two \<open>try\<close> blocks around the Progress and Completion searches
  cannot raise on a string, so only the first one (content \<open>None\<close>) has a branch here.
\<close>

definition markdown_slice :: "string option \<Rightarrow> string option" where
  "markdown_slice content =
     (case content of
        None \<Rightarrow> None
      | Some c \<Rightarrow>
          (let i = py_find c ''## Description'';
               ii = py_find_from c ''##'' (i + 1)
           in if i = - 1 then None
              else (let sliced_text = py_slice c (i + 14) ii;
                        c1 = py_replace c ''## [Progress](javascript:)'' ''## Progress'';
                        j = py_find c1 ''## Progress'';
                        jj = py_find_from c1 ''##'' (j + 1);
                        sliced_text1 =
                          (if j \<noteq> - 1 then sliced_text @ py_slice c1 (j + 11) jj
                           else sliced_text);
                        c2 = py_replace c1 ''## [Completion](javascript:)'' ''## Completion'';
                        k = py_find c2 ''## Completion'';
                        kk = py_find_from c2 ''##'' (k + 1);
                        sliced_text2 =
                          (if k \<noteq> - 1 then sliced_text1 @ py_slice c2 (k + 13) kk
                           else sliced_text1)
                    in Some sliced_text2)))"

text \<open>
  The content as \<open>markdown_slice\<close> sees it when it looks for Progress and for
  Completion, and the three pieces it appends, named for the statements below.
\<close>

definition progress_normalised :: "string \<Rightarrow> string" where
  "progress_normalised c = py_replace c ''## [Progress](javascript:)'' ''## Progress''"

definition completion_normalised :: "string \<Rightarrow> string" where
  "completion_normalised c =
     py_replace (progress_normalised c) ''## [Completion](javascript:)'' ''## Completion''"

definition section_piece :: "string \<Rightarrow> string \<Rightarrow> string" where
  "section_piece c heading =
     (let i = py_find c heading
      in py_slice c (i + int (length heading)) (py_find_from c ''##'' (i + 1)))"

definition description_text :: "string \<Rightarrow> string" where
  "description_text c = section_piece c ''## Description''"

definition progress_text :: "string \<Rightarrow> string" where
  "progress_text c =
     (if py_find (progress_normalised c) ''## Progress'' \<noteq> - 1
      then section_piece (progress_normalised c) ''## Progress'' else [])"

definition completion_text :: "string \<Rightarrow> string" where
  "completion_text c =
     (if py_find (completion_normalised c) ''## Completion'' \<noteq> - 1
      then section_piece (completion_normalised c) ''## Completion'' else [])"

section \<open>Conversion of a directory\<close>

text \<open>
  \<open>html2text.html2text\<close> is a third-party function; it is a parameter of the model. It
  receives the content (\<open>None\<close> for an unreadable file) and returns text or raises.
  \<open>html_to_markdown\<close> turns an \<open>AttributeError\<close> into \<open>None\<close> and lets every other
  exception through.
\<close>

type_synonym converter = "string option \<Rightarrow> py_error + string"

definition html_to_markdown :: "converter \<Rightarrow> string option \<Rightarrow> py_error + string option" where
  "html_to_markdown conv content =
     (case conv content of
        Inr translated_text \<Rightarrow> Inr (Some translated_text)
      | Inl e \<Rightarrow> (if e = AttributeError then Inr None else Inl e))"

text \<open>The \<open>if\<close>/\<open>elif\<close> chain of \<open>conversion_process\<close> that computes \<open>export\<close>.\<close>

definition conversion_export :: "converter \<Rightarrow> string \<Rightarrow> string option \<Rightarrow> string option run" where
  "conversion_export conv conversion_tool content =
     (if conversion_tool = ''1'' then html_slice content
      else if conversion_tool = ''2'' then
        (case html_to_markdown conv content of Inl e \<Rightarrow> Raises e | Inr t \<Rightarrow> Returns t)
      else if conversion_tool = ''3'' then Returns (markdown_slice content)
      else Raises SystemExit)"

definition conversion_process ::
  "converter \<Rightarrow> reader \<Rightarrow> (string \<Rightarrow> bool) \<Rightarrow> string \<Rightarrow> string \<Rightarrow> out_dir \<Rightarrow> out_dir run" where
  "conversion_process conv rd wr conversion_tool file out =
     (if file \<noteq> ds_store
      then (let content = import_text rd file
            in case conversion_export conv conversion_tool content of
                 Diverges \<Rightarrow> Diverges
               | Raises e \<Rightarrow> Raises e
               | Returns export \<Rightarrow>
                   (case export of
                      None \<Rightarrow> Returns out
                    | Some text \<Rightarrow> Returns (export_text wr out text file)))
      else Returns out)"

text \<open>
  The module-level counters and the output directory during one run of
  \<open>text_conversion\<close>.
\<close>

record batch_state =
  out_files :: out_dir
  total_files_queued :: nat
  total_files_processed :: nat

text \<open>\<open>conversion_progress(status='init')\<close> and \<open>conversion_progress\<close> as a callback.\<close>

definition conversion_progress_init :: "batch_state \<Rightarrow> batch_state" where
  "conversion_progress_init st = st\<lparr>total_files_processed := 0\<rparr>"

definition conversion_progress :: "batch_state \<Rightarrow> batch_state" where
  "conversion_progress st = st\<lparr>total_files_processed := total_files_processed st + 1\<rparr>"

text \<open>
  The loop of \<open>text_conversion\<close>, with \<open>pool.close()\<close> and \<open>pool.join()\<close> after it.
  Every file is handed to the worker pool with \<open>conversion_progress\<close> as the callback
  of the task. The pool runs the callback when the task has returned, whatever it
  returned. A task that raised an exception is finished without a callback. A worker
  of the pool catches \<open>Exception\<close> only: a task that ends in \<open>SystemExit\<close> ends its
  worker, and a task that never returns keeps it, so the pool never has a result for
  such a task and \<open>pool.join()\<close> waits for ever. The flag \<open>joined\<close> says that every
  task so far has finished; the state is the one reached once every task that
  finishes has finished. The tasks write under different names, so the model runs
  them one after the other in the order of the listing.
\<close>

fun text_conversion_loop ::
  "converter \<Rightarrow> reader \<Rightarrow> (string \<Rightarrow> bool) \<Rightarrow> string \<Rightarrow> string list \<Rightarrow> nat \<Rightarrow> bool
     \<Rightarrow> batch_state \<Rightarrow> bool \<times> batch_state" where
  "text_conversion_loop conv rd wr conversion_tool [] num joined st = (joined, st)"
| "text_conversion_loop conv rd wr conversion_tool (file # files) num joined st =
     (let st1 = st\<lparr>total_files_queued := num + 1\<rparr>
      in case conversion_process conv rd wr conversion_tool file (out_files st1) of
           Returns out \<Rightarrow>
             text_conversion_loop conv rd wr conversion_tool files (num + 1) joined
               (conversion_progress (st1\<lparr>out_files := out\<rparr>))
         | Raises e \<Rightarrow>
             text_conversion_loop conv rd wr conversion_tool files (num + 1)
               (if e = SystemExit then False else joined) st1
         | Diverges \<Rightarrow>
             text_conversion_loop conv rd wr conversion_tool files (num + 1) False st1)"

text \<open>
  \<open>text_conversion\<close>. \<open>cpu_count\<close> is what \<open>multiprocessing.cpu_count()\<close> answers on the
  host, \<open>None\<close> when it raises \<open>NotImplementedError\<close>. The pool is created with
  \<open>cpu_count() - 1\<close> processes before the counter is reset and before any file is
  queued, and \<open>Pool\<close> raises \<open>ValueError\<close> for fewer than one process. The result is how
  the run ends (\<open>Diverges\<close>: \<open>pool.join()\<close> never returns) and the state it leaves.
\<close>

definition text_conversion ::
  "nat option \<Rightarrow> converter \<Rightarrow> reader \<Rightarrow> (string \<Rightarrow> bool) \<Rightarrow> string \<Rightarrow> string list \<Rightarrow> batch_state
     \<Rightarrow> unit run \<times> batch_state" where
  "text_conversion cpu_count conv rd wr conversion_tool files st =
     (case cpu_count of
        None \<Rightarrow> (Raises NotImplementedError, st)
      | Some n \<Rightarrow>
          (if int n - 1 < 1 then (Raises ValueError, st)
           else (case text_conversion_loop conv rd wr conversion_tool files 0 True
                        (conversion_progress_init st) of
                   (joined, st') \<Rightarrow> (if joined then Returns () else Diverges, st'))))"

text \<open>What a conversion task leaves under a file name, and whether it returns.\<close>

definition conversion_written ::
  "converter \<Rightarrow> reader \<Rightarrow> (string \<Rightarrow> bool) \<Rightarrow> string \<Rightarrow> string \<Rightarrow> string option" where
  "conversion_written conv rd wr conversion_tool file =
     (if file = ds_store then None
      else (case conversion_export conv conversion_tool (import_text rd file) of
              Returns (Some text) \<Rightarrow> (if wr file then Some text else None)
            | _ \<Rightarrow> None))"

definition task_returns :: "converter \<Rightarrow> reader \<Rightarrow> string \<Rightarrow> string \<Rightarrow> bool" where
  "task_returns conv rd conversion_tool file =
     (if file = ds_store then True
      else (case conversion_export conv conversion_tool (import_text rd file) of
              Returns export \<Rightarrow> True
            | _ \<Rightarrow> False))"

definition has_present_result :: "converter \<Rightarrow> reader \<Rightarrow> string \<Rightarrow> string \<Rightarrow> bool" where
  "has_present_result conv rd conversion_tool file =
     (if file = ds_store then False
      else (case conversion_export conv conversion_tool (import_text rd file) of
              Returns (Some text) \<Rightarrow> True
            | _ \<Rightarrow> False))"

section \<open>Selection of files\<close>

text \<open>
  The three selecting operations run in the main process. Their result is the exception
  that ended the run or the number of exported files, together with the output
  directory as the run left it.
\<close>

text \<open>\<open>len(content)\<close>, which raises on \<open>None\<close>.\<close>

definition py_len :: "string option \<Rightarrow> py_error + nat" where
  "py_len content = (case content of None \<Rightarrow> Inl TypeError | Some c \<Rightarrow> Inr (length c))"

fun export_long_loop ::
  "reader \<Rightarrow> (string \<Rightarrow> bool) \<Rightarrow> string list \<Rightarrow> out_dir \<Rightarrow> nat \<Rightarrow> (py_error + nat) \<times> out_dir" where
  "export_long_loop rd wr [] out num_file = (Inr num_file, out)"
| "export_long_loop rd wr (file # files) out num_file =
     (if file \<noteq> ds_store
      then (let content = import_text rd file
            in case py_len content of
                 Inl e \<Rightarrow> (Inl e, out)
               | Inr n \<Rightarrow>
                   (if n > 500
                    then (case content of
                            None \<Rightarrow> export_long_loop rd wr files out num_file
                          | Some export \<Rightarrow>
                              export_long_loop rd wr files (export_text wr out export file)
                                (num_file + 1))
                    else export_long_loop rd wr files out num_file))
      else export_long_loop rd wr files out num_file)"

definition export_long ::
  "reader \<Rightarrow> (string \<Rightarrow> bool) \<Rightarrow> string list \<Rightarrow> out_dir \<Rightarrow> (py_error + nat) \<times> out_dir" where
  "export_long rd wr files out = export_long_loop rd wr files out 0"

text \<open>
  \<open>random.sample(population, k)\<close> raises \<open>ValueError\<close> unless \<open>0 \<le> k \<le> len(population)\<close>
  and otherwise draws without replacement: each draw takes the element at a random
  index of the pool, moves the last element of the pool into its place and shortens
  the pool by one. The random generator is the parameter \<open>rng\<close>; its \<open>i\<close>-th value is
  reduced to the size of the pool.
\<close>

fun sample_draw :: "(nat \<Rightarrow> nat) \<Rightarrow> nat \<Rightarrow> 'a list \<Rightarrow> nat \<Rightarrow> 'a list" where
  "sample_draw rng i pool 0 = []"
| "sample_draw rng i pool (Suc k) =
     (let j = rng i mod length pool
      in pool ! j # sample_draw rng (Suc i) (butlast (pool[j := last pool])) k)"

definition random_sample :: "(nat \<Rightarrow> nat) \<Rightarrow> 'a list \<Rightarrow> int \<Rightarrow> py_error + 'a list" where
  "random_sample rng population k =
     (if k < 0 then Inl ValueError
      else if int (length population) < k then Inl ValueError
      else Inr (sample_draw rng 0 population (nat k)))"

text \<open>
  \<open>dir_list[0::n]\<close>: a step of zero raises, a positive step takes the positions
  \<open>0, n, 2n, ...\<close>, and a negative step walks down from position \<open>0\<close>, which leaves the
  first element alone.
\<close>

fun every_nth :: "nat \<Rightarrow> 'a list \<Rightarrow> 'a list" where
  "every_nth n [] = []"
| "every_nth n (x # xs) = x # every_nth n (drop (n - 1) xs)"

definition py_stride :: "'a list \<Rightarrow> int \<Rightarrow> py_error + 'a list" where
  "py_stride xs n =
     (if n = 0 then Inl ValueError
      else if n > 0 then Inr (every_nth (nat n) xs)
      else Inr (take 1 xs))"

fun pick_rand_loop ::
  "reader \<Rightarrow> (string \<Rightarrow> bool) \<Rightarrow> string list \<Rightarrow> string list \<Rightarrow> out_dir \<Rightarrow> nat \<Rightarrow> nat \<times> out_dir" where
  "pick_rand_loop rd wr picked_files [] out num_file = (num_file, out)"
| "pick_rand_loop rd wr picked_files (file # files) out num_file =
     (if file \<noteq> ds_store
      then (if file \<in> set picked_files
            then (case import_text rd file of
                    None \<Rightarrow> pick_rand_loop rd wr picked_files files out num_file
                  | Some export \<Rightarrow>
                      pick_rand_loop rd wr picked_files files (export_text wr out export file)
                        (num_file + 1))
            else pick_rand_loop rd wr picked_files files out num_file)
      else pick_rand_loop rd wr picked_files files out num_file)"

text \<open>
  \<open>pick_rand\<close>. \<open>dir_list\<close> comes from \<open>glob('*')\<close> and the loop runs over \<open>iterdir()\<close>;
  both enumerate the entries of the same directory and are one listing here, and two
  paths are equal when their names are. The answer to "how many" goes through
  \<open>int()\<close>, which raises \<open>ValueError\<close> on text that is no number (\<open>None\<close> here). The
  selection is computed from the listing before the loop. The \<open>print\<close> after the loop applies unary \<open>+\<close> to a
  string, which raises \<open>TypeError\<close>, so a run that reaches the loop ends with that
  exception once every file has been handled. Any other mode returns at once.
\<close>

definition pick_rand ::
  "(nat \<Rightarrow> nat) \<Rightarrow> reader \<Rightarrow> (string \<Rightarrow> bool) \<Rightarrow> string list \<Rightarrow> string \<Rightarrow> int option \<Rightarrow> out_dir
     \<Rightarrow> (py_error + unit) \<times> out_dir" where
  "pick_rand rng rd wr dir_list mode n_input out =
     (if mode = ''r'' then
        (case n_input of
           None \<Rightarrow> (Inl ValueError, out)
         | Some n \<Rightarrow>
             (case random_sample rng dir_list n of
                Inl e \<Rightarrow> (Inl e, out)
              | Inr picked_files \<Rightarrow>
                  (Inl TypeError, snd (pick_rand_loop rd wr picked_files dir_list out 0))))
      else if mode = ''s'' then
        (case n_input of
           None \<Rightarrow> (Inl ValueError, out)
         | Some n \<Rightarrow>
             (case py_stride dir_list n of
                Inl e \<Rightarrow> (Inl e, out)
              | Inr picked_files \<Rightarrow>
                  (Inl TypeError, snd (pick_rand_loop rd wr picked_files dir_list out 0))))
      else (Inr (), out))"

text \<open>
  \<open>match_list\<close>. The list file is read with \<open>import_text\<close>, so \<open>quest_list\<close> is its whole
  text, or \<open>None\<close>, on which the test \<open>in\<close> raises \<open>TypeError\<close>.
\<close>

fun match_list_loop ::
  "reader \<Rightarrow> (string \<Rightarrow> bool) \<Rightarrow> string option \<Rightarrow> string list \<Rightarrow> out_dir \<Rightarrow> nat
     \<Rightarrow> (py_error + nat) \<times> out_dir" where
  "match_list_loop rd wr quest_list [] out num_file = (Inr num_file, out)"
| "match_list_loop rd wr quest_list (file # files) out num_file =
     (if file \<noteq> ds_store
      then (case quest_list of
              None \<Rightarrow> (Inl TypeError, out)
            | Some text \<Rightarrow>
                (if py_in file text
                 then (case import_text rd file of
                         None \<Rightarrow> match_list_loop rd wr quest_list files out num_file
                       | Some export \<Rightarrow>
                           match_list_loop rd wr quest_list files
                             (export_text wr out export file) (num_file + 1))
                 else match_list_loop rd wr quest_list files out num_file))
      else match_list_loop rd wr quest_list files out num_file)"

definition match_list ::
  "reader \<Rightarrow> (string \<Rightarrow> bool) \<Rightarrow> string \<Rightarrow> string list \<Rightarrow> out_dir \<Rightarrow> (py_error + nat) \<times> out_dir" where
  "match_list rd wr list_path files out =
     match_list_loop rd wr (import_text rd list_path) files out 0"

text \<open>
  The reading of the name list that the specification describes, for comparison with
  the substring test of the code: the entries of the list are its lines.
\<close>

fun spec_entries_scan :: "string \<Rightarrow> string \<Rightarrow> string list" where
  "spec_entries_scan cur [] = (if cur = [] then [] else [cur])"
| "spec_entries_scan cur (c # cs) =
     (if c = CHR 0x0A then cur # spec_entries_scan [] cs else spec_entries_scan (cur @ [c]) cs)"

definition spec_list_entries :: "string \<Rightarrow> string list" where
  "spec_list_entries text = spec_entries_scan [] text"

text \<open>
  A state of the stripping loop that it cannot leave: the first \<open><\<close> is not at the
  front of the string, and the first \<open>>\<close> is missing or lies before it.
\<close>

definition strip_stuck :: "string \<Rightarrow> bool" where
  "strip_stuck s \<longleftrightarrow> 0 < py_find s ''<'' \<and> py_find s ''>'' < py_find s ''<''"

section \<open>Facts about searching\<close>

lemma find_idx_char_None: "find_idx s [c] = None \<longleftrightarrow> c \<notin> set s"
  by (induction s) auto

lemma find_idx_char_Some:
  "find_idx s [c] = Some k \<Longrightarrow> k < length s \<and> s ! k = c \<and> c \<notin> set (take k s)"
proof (induction s arbitrary: k)
  case Nil
  then show ?case by simp
next
  case (Cons x xs)
  show ?case
  proof (cases "x = c")
    case True
    with Cons.prems show ?thesis by simp
  next
    case False
    with Cons.prems obtain k' where k': "find_idx xs [c] = Some k'" "k = Suc k'"
      by auto
    from Cons.IH [OF k'(1)] False k'(2) show ?thesis by simp
  qed
qed

lemma find_idx_char_append:
  "find_idx (xs @ ys) [c] =
     (if c \<in> set xs then find_idx xs [c] else map_option (\<lambda>k. length xs + k) (find_idx ys [c]))"
proof (induction xs)
  case Nil
  then show ?case by (cases "find_idx ys [c]") simp_all
next
  case (Cons x xs)
  then show ?case by (cases "find_idx ys [c]") auto
qed

section \<open>The stripping loop\<close>

lemma py_slice_take: "k \<le> length s \<Longrightarrow> py_slice s 0 (int k) = take k s"
  by (simp add: py_slice_def py_clamp_def Let_def min_def)

lemma py_slice_drop: "- 1 \<le> l \<Longrightarrow> py_slice s (l + 1) (int (length s)) = drop (nat (l + 1)) s"
  by (simp add: py_slice_def py_clamp_def Let_def min_def)

lemma strip_stuck_step:
  assumes "strip_stuck s"
  shows "strip_stuck (py_slice s 0 (py_find s ''<'') @ py_slice s (py_find s ''>'' + 1) (int (length s)))"
proof -
  from assms obtain k where k: "find_idx s ''<'' = Some k" "0 < k"
    by (auto simp: strip_stuck_def py_find_def split: option.splits)
  from find_idx_char_Some [OF k(1)]
  have kl: "k < length s" and sk: "s ! k = CHR ''<''" and nk: "CHR ''<'' \<notin> set (take k s)"
    by auto
  define l where "l = py_find s ''>''"
  have l: "- 1 \<le> l" "l < int k"
    using assms k by (auto simp: l_def strip_stuck_def py_find_def split: option.splits)
  define d where "d = nat (l + 1)"
  have d: "d \<le> k" using l by (simp add: d_def)
  have step: "py_slice s 0 (py_find s ''<'') @ py_slice s (py_find s ''>'' + 1) (int (length s))
      = take k s @ drop d s"
    using k kl l py_slice_take [of k s] py_slice_drop [of l s]
    by (simp add: py_find_def l_def d_def)
  have "drop d s ! (k - d) = CHR ''<''" "k - d < length (drop d s)"
    using d kl sk by simp_all
  then have "CHR ''<'' \<in> set (drop d s)"
    using nth_mem by metis
  then obtain m where m: "find_idx (drop d s) ''<'' = Some m"
    using find_idx_char_None [of "drop d s" "CHR ''<''"] by (cases "find_idx (drop d s) ''<''") auto
  have lt: "find_idx (take k s @ drop d s) ''<'' = Some (k + m)"
    using nk m kl by (simp add: find_idx_char_append min_def)
  have gt: "py_find (take k s @ drop d s) ''>'' < int k"
  proof (cases "find_idx s ''>''")
    case None
    then have "CHR ''>'' \<notin> set s" by (simp add: find_idx_char_None)
    then have "CHR ''>'' \<notin> set (take k s @ drop d s)"
      by (auto dest: in_set_takeD in_set_dropD)
    then have "find_idx (take k s @ drop d s) ''>'' = None"
      by (simp only: find_idx_char_None not_False_eq_True)
    then show ?thesis by (simp add: py_find_def)
  next
    case (Some j)
    then have jk: "j < k" using l by (simp add: l_def py_find_def)
    from find_idx_char_Some [OF Some] have "j < length s" "s ! j = CHR ''>''" by auto
    then have "take k s ! j = CHR ''>''" "j < length (take k s)"
      using jk kl by simp_all
    then have mem: "CHR ''>'' \<in> set (take k s)"
      using nth_mem by metis
    then obtain j' where j': "find_idx (take k s) ''>'' = Some j'"
      using find_idx_char_None [of "take k s" "CHR ''>''"] by (cases "find_idx (take k s) ''>''") auto
    from find_idx_char_Some [OF j'] have "j' < k" by simp
    then show ?thesis using mem j' by (simp add: py_find_def find_idx_char_append)
  qed
  show ?thesis
    unfolding step strip_stuck_def using lt gt k by (simp add: py_find_def)
qed

lemma html_strip_loop_not_stuck:
  assumes "html_strip_loop s = Some r"
  shows "\<not> strip_stuck s"
proof (rule html_strip_loop.raw_induct [where P = "\<lambda>s r. \<not> strip_stuck s", OF _ assms])
  fix loop :: "string \<Rightarrow> string option" and test2 r
  assume IH: "\<And>x y. loop x = Some y \<Longrightarrow> \<not> strip_stuck x"
    and run: "(if py_find test2 ''<'' > 0
      then (let k = py_find test2 ''<''; l = py_find test2 ''>''
            in loop (py_slice test2 0 k @ py_slice test2 (l + 1) (int (length test2))))
      else Some test2) = Some r"
  show "\<not> strip_stuck test2"
  proof
    assume st: "strip_stuck test2"
    then have pos: "0 < py_find test2 ''<''" by (simp add: strip_stuck_def)
    from run pos have "loop (py_slice test2 0 (py_find test2 ''<'') @
        py_slice test2 (py_find test2 ''>'' + 1) (int (length test2))) = Some r"
      by (simp add: Let_def)
    from IH [OF this] strip_stuck_step [OF st] show False by simp
  qed
qed

lemma html_strip_loop_stop: "\<not> 0 < py_find s ''<'' \<Longrightarrow> html_strip_loop s = Some s"
  by (subst html_strip_loop.simps) simp

lemma html_strip_loop_step: "0 < py_find s ''<'' \<Longrightarrow> html_strip_loop s =
   html_strip_loop (py_slice s 0 (py_find s ''<'') @ py_slice s (py_find s ''>'' + 1) (int (length s)))"
  by (subst html_strip_loop.simps) (simp add: Let_def)

lemma html_strip_loop_diverges: "strip_stuck s \<Longrightarrow> html_strip_loop s = None"
  using html_strip_loop_not_stuck [of s] by (cases "html_strip_loop s") auto

lemma html_slice_strips_inner_tags:
  \<open>html_slice (Some (description_h2 @ ''Hello <b>x</b> bye<h2>'')) = Returns (Some ''Hello x bye'')\<close>
  by (simp add: html_slice_def description_h2_def py_find_def py_slice_def py_clamp_def
      html_strip_loop_stop html_strip_loop_step)

text \<open>
  C1. The claim is that the stripping loop terminates and returns on markup with an
  unterminated tag. On the section text \<open>a<b\<close> (a \<open><\<close> with no \<open>>\<close> after it) the loop
  of \<open>html_slice\<close> never leaves: the failed search for \<open>>\<close> gives \<open>-1\<close>, the slice after
  it is the whole string again, and every round prepends the text before the \<open><\<close>.
\<close>

theorem html_slice_unterminated_tag_diverges:
  \<open>html_slice (Some (description_h2 @ ''a<b<h2'')) = Diverges\<close>
proof -
  have "strip_stuck ''a<b''" by (simp add: strip_stuck_def py_find_def)
  then have "html_strip_loop ''a<b'' = None" by (rule html_strip_loop_diverges)
  then show ?thesis
    by (simp add: html_slice_def description_h2_def py_find_def py_slice_def py_clamp_def)
qed

text \<open>
  C2. The claim is that a well-formed Description section comes back with every tag
  removed and no \<open><\<close> or \<open>>\<close> left. The loop only runs while the first \<open><\<close> is at a
  position greater than zero, so a section that starts with a tag is returned with all
  its tags.
\<close>

theorem html_slice_leading_tag_kept:
  \<open>html_slice (Some (description_h2 @ ''<b>x</b><h2>'')) = Returns (Some ''<b>x</b>'')\<close>
  by (simp add: html_slice_def description_h2_def py_find_def py_slice_def py_clamp_def
      html_strip_loop_stop)

section \<open>Markdown sections of a fixed document\<close>

lemmas py_eval = py_find_def py_find_from_def py_slice_def py_clamp_def py_replace_def Let_def

text \<open>
  C3. The claim is that on the document with the three sections Foo, Bar and Baz,
  followed by a fourth heading, \<open>markdown_slice\<close> returns exactly \<open>FooBarBaz\<close>. Each
  piece runs from the end of the heading text to the next \<open>##\<close>, so it keeps the line
  break after its heading and the one before the next heading: the result is not
  \<open>FooBarBaz\<close>.
\<close>

theorem markdown_slice_not_bare_concatenation:
  "markdown_slice (Some ''## Description\<newline>Foo\<newline>## Progress\<newline>Bar\<newline>## Completion\<newline>Baz\<newline>## Other'')
     \<noteq> Some ''FooBarBaz''"
  by (simp add: markdown_slice_def py_eval)

text \<open>
  C3, amended. On that document \<open>markdown_slice\<close> returns the three section bodies in
  the order Description, Progress, Completion, each with the line breaks that surround
  it in the document, and nothing else.
\<close>

theorem markdown_slice_three_sections_value:
  "markdown_slice (Some ''## Description\<newline>Foo\<newline>## Progress\<newline>Bar\<newline>## Completion\<newline>Baz\<newline>## Other'')
     = Some ''\<newline>Foo\<newline>\<newline>Bar\<newline>\<newline>Baz\<newline>''"
  by (simp add: markdown_slice_def py_eval)

section \<open>Unreadable files\<close>

text \<open>
  The other operations test for \<open>None\<close>, or catch the exception, before they use the
  content of a file that could not be read.
\<close>

lemma unreadable_file_skipped_elsewhere:
  assumes "rd f = None" "f \<noteq> ds_store"
  shows "conversion_process conv rd wr ''1'' f out = Returns out"
    and "conversion_process conv rd wr ''3'' f out = Returns out"
    and "pick_rand_loop rd wr picked (f # fs) out n = pick_rand_loop rd wr picked fs out n"
    and "match_list_loop rd wr (Some text) (f # fs) out n
           = match_list_loop rd wr (Some text) fs out n"
  using assms
  by (simp_all add: conversion_process_def conversion_export_def import_text_def html_slice_def
      markdown_slice_def)

text \<open>
  C4. The claim is that a file that cannot be read is skipped and the run goes on, for
  \<open>export_long\<close> as for the other operations. In \<open>export_long\<close> the length of the
  content is taken before the test for \<open>None\<close>: with an unreadable \<open>a.txt\<close> listed before
  a readable \<open>b.txt\<close> of 501 characters, the run ends with \<open>TypeError\<close> at \<open>a.txt\<close> and
  \<open>b.txt\<close> is never exported.
\<close>

theorem export_long_unreadable_file_aborts:
  "export_long (\<lambda>f. if f = ''b.txt'' then Some (replicate 501 CHR ''x'') else None)
     (\<lambda>f. True) [''a.txt'', ''b.txt''] Map.empty = (Inl TypeError, Map.empty)"
  by (simp add: export_long_def import_text_def py_len_def ds_store_def)

section \<open>Writing to the output directory\<close>

lemma export_text_apply:
  "export_text wr out export filename name =
     (if name = filename \<and> wr filename then Some export else out name)"
  by (simp add: export_text_def)

lemma export_text_other: "filename \<noteq> name \<Longrightarrow> export_text wr out export filename name = out name"
  by (simp add: export_text_def)

lemma export_long_loop_ds:
  "snd (export_long_loop rd wr files out num_file) ds_store = out ds_store"
  by (induction files arbitrary: out num_file)
     (auto simp: Let_def export_text_other split: option.splits sum.splits)

lemma pick_rand_loop_ds:
  "snd (pick_rand_loop rd wr picked files out num_file) ds_store = out ds_store"
  by (induction files arbitrary: out num_file)
     (auto simp: Let_def export_text_other split: option.splits)

lemma match_list_loop_ds:
  "snd (match_list_loop rd wr quest_list files out num_file) ds_store = out ds_store"
  by (induction files arbitrary: out num_file)
     (auto simp: Let_def export_text_other split: option.splits)

lemma conversion_process_ds:
  "conversion_process conv rd wr tool file out = Returns out' \<Longrightarrow> out' ds_store = out ds_store"
  by (auto simp: conversion_process_def Let_def export_text_other split: if_splits run.splits option.splits)

lemma text_conversion_loop_ds:
  "out_files (snd (text_conversion_loop conv rd wr tool files num joined st)) ds_store
     = out_files st ds_store"
proof (induction files arbitrary: num joined st)
  case Nil
  then show ?case by simp
next
  case (Cons f fs)
  show ?case
  proof (cases "conversion_process conv rd wr tool f
      (out_files (st\<lparr>total_files_queued := num + 1\<rparr>))")
    case Diverges
    then show ?thesis by (simp add: Cons.IH)
  next
    case (Raises e)
    then show ?thesis by (simp add: Cons.IH)
  next
    case (Returns out')
    then show ?thesis
      using conversion_process_ds [OF Returns]
      by (simp add: Cons.IH conversion_progress_def)
  qed
qed

lemma text_conversion_ds:
  "out_files (snd (text_conversion cpu_count conv rd wr tool files st)) ds_store
     = out_files st ds_store"
proof (cases "text_conversion_loop conv rd wr tool files 0 True (conversion_progress_init st)")
  case (Pair joined st')
  with text_conversion_loop_ds [of conv rd wr tool files 0 True "conversion_progress_init st"]
  have "out_files st' ds_store = out_files st ds_store"
    by (simp add: conversion_progress_init_def)
  with Pair show ?thesis
    by (simp add: text_conversion_def split: option.splits)
qed

text \<open>
  No operation reads the reserved name: what reading it would give makes no
  difference to any of them.
\<close>

lemma conversion_process_reads_no_ds:
  "conversion_process conv (rd(ds_store := x)) wr tool f out
     = conversion_process conv rd wr tool f out"
  by (simp add: conversion_process_def import_text_def)

lemma text_conversion_loop_reads_no_ds:
  "text_conversion_loop conv (rd(ds_store := x)) wr tool files num joined st
     = text_conversion_loop conv rd wr tool files num joined st"
  by (induction files arbitrary: num joined st)
     (simp_all add: conversion_process_reads_no_ds Let_def split: run.splits)

lemma export_long_loop_reads_no_ds:
  "export_long_loop (rd(ds_store := x)) wr files out num_file
     = export_long_loop rd wr files out num_file"
  by (induction files arbitrary: out num_file)
     (simp_all add: import_text_def Let_def split: option.splits sum.splits)

lemma pick_rand_loop_reads_no_ds:
  "pick_rand_loop (rd(ds_store := x)) wr picked files out num_file
     = pick_rand_loop rd wr picked files out num_file"
  by (induction files arbitrary: out num_file)
     (auto simp: import_text_def split: option.splits)

lemma match_list_loop_reads_no_ds:
  "match_list_loop (rd(ds_store := x)) wr quest_list files out num_file
     = match_list_loop rd wr quest_list files out num_file"
  by (induction files arbitrary: out num_file)
     (auto simp: import_text_def split: option.splits)

section \<open>Matching against the name list\<close>

lemma match_list_loop_out:
  "snd (match_list_loop rd wr (Some text) files out num_file) name =
     (if name \<in> set files \<and> name \<noteq> ds_store \<and> py_in name text \<and> wr name \<and> rd name \<noteq> None
      then rd name else out name)"
proof (induction files arbitrary: out num_file name)
  case Nil
  then show ?case by simp
next
  case (Cons f fs)
  show ?case
    by (cases "rd f") (auto simp: Cons.IH import_text_def export_text_apply)
qed

text \<open>
  C7. The claim is that in name-list mode a file is copied exactly when its name is an
  entry of the list. The code tests whether the name occurs somewhere in the text of
  the list file: with the list \<open>quest_1.txt\<close> the file \<open>1.txt\<close> is copied, and it is no
  entry of the list.
\<close>

theorem match_list_not_exact_membership:
  "snd (match_list (\<lambda>f. if f = ''list.txt'' then Some ''quest_1.txt\<newline>''
                else if f = ''1.txt'' then Some ''body'' else None) (\<lambda>f. True) ''list.txt'' [''1.txt''] Map.empty) ''1.txt'' = Some ''body''
   \<and> ''1.txt'' \<notin> set (spec_list_entries ''quest_1.txt\<newline>'')"
  by (simp add: match_list_def import_text_def ds_store_def py_in_def export_text_def spec_list_entries_def)

text \<open>
  C7, amended. In name-list mode, when the list file can be read, the output directory
  holds the content of a file under its name exactly when the file is in the listing,
  is not the reserved name, its name occurs as a substring of the text of the list
  file, and the file can be read and written; every other name of the output directory
  is left as it was.
\<close>

theorem match_list_selects_substrings:
  assumes "import_text rd list_path = Some text"
  shows "snd (match_list rd wr list_path files out) name =
     (if name \<in> set files \<and> name \<noteq> ds_store \<and> py_in name text \<and> wr name \<and> rd name \<noteq> None
      then rd name else out name)"
  using assms by (simp only: match_list_def match_list_loop_out)

theorem match_list_selects_substrings_witness:
  "snd (match_list (\<lambda>f. if f = ''list.txt'' then Some ''quest_1.txt\<newline>''
                else if f = ''quest_1.txt'' then Some ''body'' else None) (\<lambda>f. True) ''list.txt''
         [''quest_1.txt'', ''quest_2.txt''] Map.empty) ''quest_1.txt'' = Some ''body''"
  using match_list_selects_substrings [of "(\<lambda>f. if f = ''list.txt'' then Some ''quest_1.txt\<newline>''
                else if f = ''quest_1.txt'' then Some ''body'' else None)" "''list.txt''" "''quest_1.txt\<newline>''"
         "\<lambda>f. True" "[''quest_1.txt'', ''quest_2.txt'']" Map.empty "''quest_1.txt''"]
  by (simp add: import_text_def ds_store_def py_in_def)

section \<open>Random selection\<close>

lemma swap_remove:
  assumes "distinct pool" "j < length pool"
  shows "distinct (butlast (pool[j := last pool]))
     \<and> set (butlast (pool[j := last pool])) = set pool - {pool ! j}
     \<and> length (butlast (pool[j := last pool])) = length pool - 1"
proof -
  from assms(2) have ne: "pool \<noteq> []" by auto
  define xs where "xs = butlast pool"
  define y where "y = last pool"
  have pool: "pool = xs @ [y]" using ne by (simp add: xs_def y_def)
  have dx: "distinct xs" "y \<notin> set xs" using assms(1) pool by auto
  show ?thesis
  proof (cases "j = length xs")
    case True
    then have "pool[j := last pool] = pool" using pool by simp
    then show ?thesis using pool dx True by auto
  next
    case False
    then have jx: "j < length xs" using assms(2) pool by simp
    have upd: "pool[j := last pool] = xs[j := y] @ [y]"
      using pool jx by (simp add: list_update_append1)
    have pj: "pool ! j = xs ! j" using pool jx by (simp add: nth_append)
    have "distinct (xs[j := y])" using dx jx by (simp add: distinct_list_update)
    moreover have "set (xs[j := y]) = insert y (set xs - {xs ! j})"
      using dx jx by (simp add: set_update_distinct)
    moreover have "xs ! j \<noteq> y" using dx jx by (metis nth_mem)
    ultimately show ?thesis using upd pj pool jx dx by auto
  qed
qed

lemma sample_draw_props:
  "distinct pool \<Longrightarrow> k \<le> length pool \<Longrightarrow>
     length (sample_draw rng i pool k) = k
     \<and> distinct (sample_draw rng i pool k)
     \<and> set (sample_draw rng i pool k) \<subseteq> set pool"
proof (induction k arbitrary: i pool)
  case 0
  then show ?case by simp
next
  case (Suc k)
  define j where "j = rng i mod length pool"
  from Suc.prems(2) have pos: "0 < length pool" by (cases pool) simp_all
  then have j: "j < length pool" by (simp add: j_def)
  define pool' where "pool' = butlast (pool[j := last pool])"
  from swap_remove [OF Suc.prems(1) j]
  have p': "distinct pool'" "set pool' = set pool - {pool ! j}" "length pool' = length pool - 1"
    by (simp_all add: pool'_def)
  have "k \<le> length pool'" using p'(3) Suc.prems(2) by simp
  from Suc.IH [OF p'(1) this, of "Suc i"]
  have IH: "length (sample_draw rng (Suc i) pool' k) = k"
    "distinct (sample_draw rng (Suc i) pool' k)"
    "set (sample_draw rng (Suc i) pool' k) \<subseteq> set pool'" by simp_all
  have eq: "sample_draw rng i pool (Suc k) = pool ! j # sample_draw rng (Suc i) pool' k"
    by (simp add: j_def pool'_def Let_def)
  show ?case unfolding eq using IH p'(2) j by auto
qed

text \<open>
  C8. For a listing of distinct files and a requested sample size \<open>n\<close>: when \<open>n\<close> exceeds
  the number of files, \<open>pick_rand\<close> ends with \<open>ValueError\<close> and the output directory is
  untouched; otherwise \<open>random.sample\<close> yields \<open>n\<close> distinct files of the listing, and
  the loop over the directory runs with that one selection.
\<close>

theorem pick_rand_sample:
  "(length dir_list < n \<longrightarrow>
      pick_rand rng rd wr dir_list ''r'' (Some (int n)) out = (Inl ValueError, out))
   \<and> (n \<le> length dir_list \<and> distinct dir_list \<longrightarrow>
      (\<exists>picked_files. random_sample rng dir_list (int n) = Inr picked_files
         \<and> length picked_files = n \<and> distinct picked_files
         \<and> set picked_files \<subseteq> set dir_list
         \<and> pick_rand rng rd wr dir_list ''r'' (Some (int n)) out
             = (Inl TypeError, snd (pick_rand_loop rd wr picked_files dir_list out 0))))"
proof (intro conjI impI)
  assume "length dir_list < n"
  then show "pick_rand rng rd wr dir_list ''r'' (Some (int n)) out = (Inl ValueError, out)"
    by (simp add: pick_rand_def random_sample_def)
next
  assume a: "n \<le> length dir_list \<and> distinct dir_list"
  then have rs: "random_sample rng dir_list (int n) = Inr (sample_draw rng 0 dir_list n)"
    by (simp add: random_sample_def)
  from a sample_draw_props [of dir_list n rng 0]
  have "length (sample_draw rng 0 dir_list n) = n" "distinct (sample_draw rng 0 dir_list n)"
    "set (sample_draw rng 0 dir_list n) \<subseteq> set dir_list" by simp_all
  then show "\<exists>picked_files. random_sample rng dir_list (int n) = Inr picked_files
         \<and> length picked_files = n \<and> distinct picked_files
         \<and> set picked_files \<subseteq> set dir_list
         \<and> pick_rand rng rd wr dir_list ''r'' (Some (int n)) out
             = (Inl TypeError, snd (pick_rand_loop rd wr picked_files dir_list out 0))"
    using rs by (simp add: pick_rand_def)
qed

theorem pick_rand_sample_witness:
  "pick_rand (\<lambda>i. 7 * i + 2) (\<lambda>f. Some ''text'') (\<lambda>f. True) [''a'', ''b'', ''c'', ''d''] ''r'' (Some 5) Map.empty
      = (Inl ValueError, Map.empty)
   \<and> (\<exists>picked_files. random_sample (\<lambda>i. 7 * i + 2) [''a'', ''b'', ''c'', ''d''] 2 = Inr picked_files
         \<and> length picked_files = 2 \<and> distinct picked_files
         \<and> set picked_files \<subseteq> {''a'', ''b'', ''c'', ''d''})"
proof -
  let ?rng = "\<lambda>i::nat. 7 * i + 2"
  let ?rd = "\<lambda>f::string. Some ''text''"
  let ?wr = "\<lambda>f::string. True"
  let ?dir = "[''a'', ''b'', ''c'', ''d'']"
  have big: "length ?dir < 5" by simp
  have small: "2 \<le> length ?dir \<and> distinct ?dir" by simp
  from big pick_rand_sample [of ?dir 5 ?rng ?rd ?wr Map.empty]
  have 1: "pick_rand ?rng ?rd ?wr ?dir ''r'' (Some 5) Map.empty = (Inl ValueError, Map.empty)"
    by simp
  from small pick_rand_sample [of ?dir 2 ?rng ?rd ?wr Map.empty]
  obtain picked_files where "random_sample ?rng ?dir (int 2) = Inr picked_files"
    "length picked_files = 2" "distinct picked_files" "set picked_files \<subseteq> set ?dir"
    by blast
  then have 2: "\<exists>picked_files. random_sample ?rng ?dir 2 = Inr picked_files
         \<and> length picked_files = 2 \<and> distinct picked_files
         \<and> set picked_files \<subseteq> {''a'', ''b'', ''c'', ''d''}"
    by auto
  from 1 2 show ?thesis by simp
qed

section \<open>Output and progress count of a conversion run\<close>

lemma conversion_process_returns:
  "task_returns conv rd tool f \<Longrightarrow>
     conversion_process conv rd wr tool f out =
       Returns (case conversion_written conv rd wr tool f of
                  Some t \<Rightarrow> out(f \<mapsto> t) | None \<Rightarrow> out)"
  by (auto simp: task_returns_def conversion_process_def conversion_written_def export_text_def
      Let_def split: run.splits option.splits if_splits)

lemma conversion_process_fails:
  "\<not> task_returns conv rd tool f \<Longrightarrow>
     conversion_process conv rd wr tool f out \<noteq> Returns out'
     \<and> conversion_written conv rd wr tool f = None"
  by (auto simp: task_returns_def conversion_process_def conversion_written_def
      Let_def split: run.splits option.splits if_splits)

lemma text_conversion_loop_processed:
  "total_files_processed (snd (text_conversion_loop conv rd wr tool files num joined st)) =
     total_files_processed st + length (filter (task_returns conv rd tool) files)"
proof (induction files arbitrary: num joined st)
  case Nil
  then show ?case by simp
next
  case (Cons f fs)
  show ?case
  proof (cases "task_returns conv rd tool f")
    case True
    then show ?thesis
      by (simp add: Let_def Cons.IH conversion_process_returns conversion_progress_def)
  next
    case False
    from conversion_process_fails [OF False]
    show ?thesis using False
      by (cases "conversion_process conv rd wr tool f (out_files st)") (simp_all add: Let_def Cons.IH)
  qed
qed

lemma text_conversion_loop_out:
  "out_files (snd (text_conversion_loop conv rd wr tool files num joined st)) name =
     (if name \<in> set files
      then (case conversion_written conv rd wr tool name of
              Some t \<Rightarrow> Some t | None \<Rightarrow> out_files st name)
      else out_files st name)"
proof (induction files arbitrary: num joined st name)
  case Nil
  then show ?case by simp
next
  case (Cons f fs)
  show ?case
  proof (cases "task_returns conv rd tool f")
    case True
    then show ?thesis
      by (auto simp: Let_def Cons.IH conversion_process_returns conversion_progress_def
          split: option.splits)
  next
    case False
    from conversion_process_fails [OF False]
    show ?thesis using False
      by (cases "conversion_process conv rd wr tool f (out_files st)")
         (auto simp: Let_def Cons.IH split: option.splits)
  qed
qed

text \<open>A run that ends with "Process complete" had its pool and went through the loop.\<close>

lemma text_conversion_complete_state:
  assumes "text_conversion cpu_count conv rd wr tool files st = (Returns (), st')"
  shows "st' = snd (text_conversion_loop conv rd wr tool files 0 True (conversion_progress_init st))"
  using assms
  by (auto simp: text_conversion_def split: option.splits if_splits prod.splits)

text \<open>With two processors or more, a run whose tasks all return is complete.\<close>

lemma text_conversion_loop_joined:
  "list_all (task_returns conv rd tool) files \<Longrightarrow>
     fst (text_conversion_loop conv rd wr tool files num joined st) = joined"
  by (induction files arbitrary: num st)
     (simp_all add: Let_def conversion_process_returns)

lemma text_conversion_completes:
  assumes "2 \<le> n" "list_all (task_returns conv rd tool) files"
  shows "fst (text_conversion (Some n) conv rd wr tool files st) = Returns ()"
proof (cases "text_conversion_loop conv rd wr tool files 0 True (conversion_progress_init st)")
  case (Pair joined st')
  with text_conversion_loop_joined [OF assms(2), of wr 0 True "conversion_progress_init st"]
  have "joined" by simp
  with Pair assms(1) show ?thesis
    by (simp add: text_conversion_def)
qed

text \<open>On a host with one processor the pool cannot be created and nothing is done.\<close>

lemma text_conversion_one_processor:
  "text_conversion (Some 1) conv rd wr tool files st = (Raises ValueError, st)"
  by (simp add: text_conversion_def)

lemma markdown_slice_one_section: "markdown_slice (Some ''## Description\<newline>Foo\<newline>## Other'') = Some ''\<newline>Foo\<newline>''"
  by (simp add: markdown_slice_def py_eval)

lemma markdown_slice_no_section: "markdown_slice (Some ''nothing'') = None"
  by (simp add: markdown_slice_def py_eval)

text \<open>
  C5. The claim is that a file whose conversion gives no result is not written and
  does not count as processed. The callback that counts runs for every task that
  returns, and \<open>conversion_process\<close> returns nothing that would tell the two cases
  apart: of two files, one with a Description section and one without, both are
  counted, and only one has a result.
\<close>

theorem text_conversion_counts_absent_results:
  "fst (text_conversion (Some 2) (\<lambda>c. Inl AttributeError)
        (\<lambda>f. if f = ''a.md'' then Some ''## Description\<newline>Foo\<newline>## Other'' else Some ''nothing'')
        (\<lambda>f. True) ''3'' [''a.md'', ''b.md'']
        \<lparr>out_files = Map.empty, total_files_queued = 0, total_files_processed = 0\<rparr>)
     = Returns ()
   \<and> total_files_processed
     (snd (text_conversion (Some 2) (\<lambda>c. Inl AttributeError)
        (\<lambda>f. if f = ''a.md'' then Some ''## Description\<newline>Foo\<newline>## Other'' else Some ''nothing'')
        (\<lambda>f. True) ''3'' [''a.md'', ''b.md'']
        \<lparr>out_files = Map.empty, total_files_queued = 0, total_files_processed = 0\<rparr>))
   \<noteq> length (filter (has_present_result (\<lambda>c. Inl AttributeError)
        (\<lambda>f. if f = ''a.md'' then Some ''## Description\<newline>Foo\<newline>## Other'' else Some ''nothing'') ''3'')
        [''a.md'', ''b.md''])"
  by (simp add: text_conversion_def conversion_progress_init_def conversion_progress_def
      conversion_process_def conversion_export_def import_text_def ds_store_def
      has_present_result_def export_text_def markdown_slice_one_section
      markdown_slice_no_section)

text \<open>
  C5, amended. In a conversion run that completes (the pool could be created and
  every task finished), the result of a listed file other than the reserved name,
  when present and when the output file can be written, is in the output directory
  under the name of the file; for a file with an absent result the output directory
  keeps what it had under that name, and the task still returns; and the processed
  total is the number of listed files whose task returned, with or without a result.
\<close>

theorem text_conversion_outputs_and_count:
  assumes "text_conversion cpu_count conv rd wr tool files st = (Returns (), st')"
  shows "(file \<in> set files \<and> file \<noteq> ds_store \<and> wr file
      \<and> conversion_export conv tool (import_text rd file) = Returns (Some result)
      \<longrightarrow> out_files st' file = Some result)
   \<and> (file \<noteq> ds_store \<and> conversion_export conv tool (import_text rd file) = Returns None
      \<longrightarrow> out_files st' file = out_files st file \<and> task_returns conv rd tool file)
   \<and> total_files_processed st' = length (filter (task_returns conv rd tool) files)"
proof (intro conjI impI)
  note st' = text_conversion_complete_state [OF assms]
  {
    assume "file \<in> set files \<and> file \<noteq> ds_store \<and> wr file
      \<and> conversion_export conv tool (import_text rd file) = Returns (Some result)"
    then show "out_files st' file = Some result"
      by (simp add: st' text_conversion_loop_out conversion_written_def
          conversion_progress_init_def)
  next
    assume a: "file \<noteq> ds_store
      \<and> conversion_export conv tool (import_text rd file) = Returns None"
    then show "out_files st' file = out_files st file"
      by (simp add: st' text_conversion_loop_out conversion_written_def
          conversion_progress_init_def)
    from a show "task_returns conv rd tool file"
      by (simp add: task_returns_def)
  next
    show "total_files_processed st' = length (filter (task_returns conv rd tool) files)"
      by (simp add: st' text_conversion_loop_processed conversion_progress_init_def)
  }
qed

theorem text_conversion_outputs_and_count_witness:
  "fst (text_conversion (Some 2) (\<lambda>c. Inl AttributeError)
        (\<lambda>f. if f = ''a.md'' then Some ''## Description\<newline>Foo\<newline>## Other'' else Some ''nothing'')
        (\<lambda>f. True) ''3'' [''a.md'', ''b.md'']
        \<lparr>out_files = Map.empty, total_files_queued = 0, total_files_processed = 0\<rparr>)
     = Returns ()
   \<and> out_files
     (snd (text_conversion (Some 2) (\<lambda>c. Inl AttributeError)
        (\<lambda>f. if f = ''a.md'' then Some ''## Description\<newline>Foo\<newline>## Other'' else Some ''nothing'')
        (\<lambda>f. True) ''3'' [''a.md'', ''b.md'']
        \<lparr>out_files = Map.empty, total_files_queued = 0, total_files_processed = 0\<rparr>)) ''a.md''
     = Some ''\<newline>Foo\<newline>''
   \<and> out_files
     (snd (text_conversion (Some 2) (\<lambda>c. Inl AttributeError)
        (\<lambda>f. if f = ''a.md'' then Some ''## Description\<newline>Foo\<newline>## Other'' else Some ''nothing'')
        (\<lambda>f. True) ''3'' [''a.md'', ''b.md'']
        \<lparr>out_files = Map.empty, total_files_queued = 0, total_files_processed = 0\<rparr>)) ''b.md''
     = None
   \<and> total_files_processed
     (snd (text_conversion (Some 2) (\<lambda>c. Inl AttributeError)
        (\<lambda>f. if f = ''a.md'' then Some ''## Description\<newline>Foo\<newline>## Other'' else Some ''nothing'')
        (\<lambda>f. True) ''3'' [''a.md'', ''b.md'']
        \<lparr>out_files = Map.empty, total_files_queued = 0, total_files_processed = 0\<rparr>))
     = 2"
proof -
  let ?conv = "(\<lambda>c. Inl AttributeError) :: converter"
  let ?rd = "\<lambda>f. if f = ''a.md'' then Some ''## Description\<newline>Foo\<newline>## Other'' else Some ''nothing''"
  let ?wr = "\<lambda>f::string. True"
  let ?files = "[''a.md'', ''b.md'']"
  let ?st = "\<lparr>out_files = Map.empty, total_files_queued = 0, total_files_processed = 0\<rparr>"
  let ?run = "text_conversion (Some 2) ?conv ?rd ?wr ''3'' ?files ?st"
  have a: "conversion_export ?conv ''3'' (import_text ?rd ''a.md'') = Returns (Some ''\<newline>Foo\<newline>'')"
    by (simp add: conversion_export_def import_text_def markdown_slice_one_section)
  have b: "conversion_export ?conv ''3'' (import_text ?rd ''b.md'') = Returns None"
    by (simp add: conversion_export_def import_text_def markdown_slice_no_section)
  have ra: "task_returns ?conv ?rd ''3'' ''a.md''"
    by (simp add: task_returns_def ds_store_def a)
  have rb: "task_returns ?conv ?rd ''3'' ''b.md''"
    by (simp add: task_returns_def ds_store_def b)
  have 0: "fst ?run = Returns ()"
    using ra rb by (intro text_conversion_completes) simp_all
  then have run: "?run = (Returns (), snd ?run)"
    by (simp add: prod_eq_iff)
  from text_conversion_outputs_and_count [OF run, of "''a.md''" "''\<newline>Foo\<newline>''"] a
  have 1: "out_files (snd ?run) ''a.md'' = Some ''\<newline>Foo\<newline>''"
    by (simp add: ds_store_def)
  from text_conversion_outputs_and_count [OF run, of "''b.md''" "''x''"] b
  have 2: "out_files (snd ?run) ''b.md'' = None"
    and 3: "total_files_processed (snd ?run)
       = length (filter (task_returns ?conv ?rd ''3'') ?files)"
    by (simp_all add: ds_store_def)
  from 3 ra rb have 4: "total_files_processed (snd ?run) = 2"
    by simp
  from 0 1 2 4 show ?thesis by simp
qed

section \<open>The reserved file name\<close>

text \<open>
  C9. The claim is that \<open>.DS_Store\<close> is never processed and never written. A
  conversion run hands it to the pool like every other entry of the directory, its
  task returns at once, and the callback counts it: a run over a directory that holds
  nothing else ends with one file processed.
\<close>

theorem ds_store_counted_as_processed:
  "fst (text_conversion (Some 2) (\<lambda>c. Inl AttributeError) (\<lambda>f. None) (\<lambda>f. True) ''3''
        [''.DS_Store'']
        \<lparr>out_files = Map.empty, total_files_queued = 0, total_files_processed = 0\<rparr>)
     = Returns ()
   \<and> total_files_processed
     (snd (text_conversion (Some 2) (\<lambda>c. Inl AttributeError) (\<lambda>f. None) (\<lambda>f. True) ''3''
        [''.DS_Store'']
        \<lparr>out_files = Map.empty, total_files_queued = 0, total_files_processed = 0\<rparr>))
     = 1"
  by (simp add: text_conversion_def conversion_progress_init_def conversion_progress_def
      conversion_process_def ds_store_def)

text \<open>
  C9, amended. Whatever the operation, the tool, the selection and the files,
  \<open>.DS_Store\<close> is never written and never read: the entry of the output directory under
  that name after the run is what it was before, and what reading the file would give
  makes no difference to the run (for \<open>match_list\<close>, unless the list file itself has
  that name). It is not left out of the count: its conversion task returns, and a
  conversion run that completes counts every task that returned.
\<close>

theorem ds_store_never_read_or_written:
  "out_files (snd (text_conversion cpu_count conv rd wr tool files st)) ds_store
      = out_files st ds_store
   \<and> snd (export_long rd wr files out) ds_store = out ds_store
   \<and> snd (pick_rand rng rd wr files mode n_input out) ds_store = out ds_store
   \<and> snd (match_list rd wr list_path files out) ds_store = out ds_store
   \<and> text_conversion cpu_count conv (rd(ds_store := x)) wr tool files st
      = text_conversion cpu_count conv rd wr tool files st
   \<and> export_long (rd(ds_store := x)) wr files out = export_long rd wr files out
   \<and> pick_rand rng (rd(ds_store := x)) wr files mode n_input out
      = pick_rand rng rd wr files mode n_input out
   \<and> (list_path \<noteq> ds_store \<longrightarrow>
        match_list (rd(ds_store := x)) wr list_path files out
          = match_list rd wr list_path files out)
   \<and> task_returns conv rd tool ds_store
   \<and> (fst (text_conversion cpu_count conv rd wr tool files st) = Returns () \<longrightarrow>
        total_files_processed (snd (text_conversion cpu_count conv rd wr tool files st))
          = length (filter (task_returns conv rd tool) files))"
proof -
  have w1: "out_files (snd (text_conversion cpu_count conv rd wr tool files st)) ds_store
      = out_files st ds_store"
    by (rule text_conversion_ds)
  have w2: "snd (export_long rd wr files out) ds_store = out ds_store"
    by (simp add: export_long_def export_long_loop_ds)
  have w3: "snd (pick_rand rng rd wr files mode n_input out) ds_store = out ds_store"
    by (simp add: pick_rand_def pick_rand_loop_ds split: option.splits sum.splits)
  have w4: "snd (match_list rd wr list_path files out) ds_store = out ds_store"
    by (simp add: match_list_def match_list_loop_ds)
  have r1: "text_conversion cpu_count conv (rd(ds_store := x)) wr tool files st
      = text_conversion cpu_count conv rd wr tool files st"
    by (simp add: text_conversion_def text_conversion_loop_reads_no_ds split: option.splits)
  have r2: "export_long (rd(ds_store := x)) wr files out = export_long rd wr files out"
    by (simp add: export_long_def export_long_loop_reads_no_ds)
  have r3: "pick_rand rng (rd(ds_store := x)) wr files mode n_input out
      = pick_rand rng rd wr files mode n_input out"
    by (simp add: pick_rand_def pick_rand_loop_reads_no_ds split: option.splits sum.splits)
  have r4: "list_path \<noteq> ds_store \<longrightarrow>
        match_list (rd(ds_store := x)) wr list_path files out
          = match_list rd wr list_path files out"
    by (simp add: match_list_def match_list_loop_reads_no_ds import_text_def)
  have c1: "task_returns conv rd tool ds_store"
    by (simp add: task_returns_def)
  have c2: "fst (text_conversion cpu_count conv rd wr tool files st) = Returns () \<longrightarrow>
        total_files_processed (snd (text_conversion cpu_count conv rd wr tool files st))
          = length (filter (task_returns conv rd tool) files)"
  proof
    assume "fst (text_conversion cpu_count conv rd wr tool files st) = Returns ()"
    then have "text_conversion cpu_count conv rd wr tool files st
        = (Returns (), snd (text_conversion cpu_count conv rd wr tool files st))"
      by (simp add: prod_eq_iff)
    from text_conversion_complete_state [OF this]
    show "total_files_processed (snd (text_conversion cpu_count conv rd wr tool files st))
          = length (filter (task_returns conv rd tool) files)"
      by (simp add: text_conversion_loop_processed conversion_progress_init_def)
  qed
  from w1 w2 w3 w4 r1 r2 r3 r4 c1 c2 show ?thesis by blast
qed

theorem ds_store_never_read_or_written_witness:
  "match_list ((\<lambda>f. Some ''a.md'')(ds_store := None)) (\<lambda>f. True) ''list.txt''
       [''.DS_Store'', ''a.md''] Map.empty
     = match_list (\<lambda>f. Some ''a.md'') (\<lambda>f. True) ''list.txt'' [''.DS_Store'', ''a.md''] Map.empty
   \<and> total_files_processed
       (snd (text_conversion (Some 2) (\<lambda>c. Inl AttributeError) (\<lambda>f. Some ''nothing'') (\<lambda>f. True)
          ''3'' [''.DS_Store'', ''a.md'']
          \<lparr>out_files = Map.empty, total_files_queued = 0, total_files_processed = 0\<rparr>))
     = 2"
proof -
  let ?conv = "(\<lambda>c. Inl AttributeError) :: converter"
  let ?rd = "\<lambda>f::string. Some ''nothing''"
  let ?wr = "\<lambda>f::string. True"
  let ?files = "[''.DS_Store'', ''a.md'']"
  let ?st = "\<lparr>out_files = Map.empty, total_files_queued = 0, total_files_processed = 0\<rparr>"
  have lp: "''list.txt'' \<noteq> ds_store" by (simp add: ds_store_def)
  have ret: "task_returns ?conv ?rd ''3'' ''.DS_Store''" "task_returns ?conv ?rd ''3'' ''a.md''"
    by (simp_all add: task_returns_def ds_store_def conversion_export_def import_text_def
        markdown_slice_no_section)
  then have run: "fst (text_conversion (Some 2) ?conv ?rd ?wr ''3'' ?files ?st) = Returns ()"
    by (intro text_conversion_completes) simp_all
  from ds_store_never_read_or_written [where cpu_count = "Some 2" and conv = ?conv and rd = ?rd
      and wr = ?wr and tool = "''3''" and files = ?files and st = ?st] run ret
  have 1: "total_files_processed (snd (text_conversion (Some 2) ?conv ?rd ?wr ''3'' ?files ?st)) = 2"
    by simp
  from ds_store_never_read_or_written [where rd = "\<lambda>f. Some ''a.md''" and wr = ?wr
      and files = ?files and out = Map.empty and list_path = "''list.txt''" and x = None] lp
  have 2: "match_list ((\<lambda>f. Some ''a.md'')(ds_store := None)) ?wr ''list.txt'' ?files Map.empty
     = match_list (\<lambda>f. Some ''a.md'') ?wr ''list.txt'' ?files Map.empty"
    by simp
  from 1 2 show ?thesis by simp
qed

section \<open>The extent of a markdown section\<close>

lemma py_find_ge: "- 1 \<le> py_find s sub"
  by (simp add: py_find_def split: option.splits)

lemma markdown_slice_pieces:
  "markdown_slice (Some c) =
     (if py_find c ''## Description'' = - 1 then None
      else Some (description_text c @ progress_text c @ completion_text c))"
  by (simp add: markdown_slice_def description_text_def progress_text_def completion_text_def
      section_piece_def progress_normalised_def completion_normalised_def Let_def)

lemma py_slice_minus1:
  assumes "0 \<le> lo"
  shows "py_slice s lo (- 1) = butlast (drop (nat lo) s)"
proof (cases "lo \<le> int (length s)")
  case True
  then have "nat (max 0 (- 1 + int (length s))) - nat lo = length s - nat lo - 1"
    using assms by (simp add: max_def) linarith
  then show ?thesis
    using assms True by (simp add: py_slice_def py_clamp_def Let_def butlast_conv_take min_def)
next
  case False
  then show ?thesis
    using assms by (simp add: py_slice_def py_clamp_def Let_def min_def)
qed

lemma section_piece_last:
  assumes "py_find c heading \<noteq> - 1 \<and> py_find_from c ''##'' (py_find c heading + 1) = - 1"
    and n: "length heading = n"
  shows "section_piece c heading = butlast (drop (nat (py_find c heading) + n) c)"
proof -
  have "0 \<le> py_find c heading" using assms(1) py_find_ge [of c heading] by simp
  then have "0 \<le> py_find c heading + int n"
    "nat (py_find c heading + int n) = nat (py_find c heading) + n"
    by simp_all
  then show ?thesis
    using assms(1) py_slice_minus1 [of "py_find c heading + int n" c]
    by (simp only: section_piece_def Let_def n)
qed

lemma find_idx_shift: "find_idx (drop a s) sub = Some k \<Longrightarrow> a \<le> length s \<Longrightarrow>
   py_find_from s sub (int a) = int (a + k)"
  by (simp add: py_find_from_def py_clamp_def Let_def min_def)

lemma py_slice_mid:
  "py_slice (xs @ ys @ zs) (int (length xs)) (int (length xs + length ys)) = ys"
  by (simp add: py_slice_def py_clamp_def Let_def min_def)

lemma section_piece_between:
  assumes c: "c = p @ heading @ body @ ''##'' @ r"
    and i: "py_find c heading = int (length p)"
    and ne: "heading \<noteq> []"
    and nxt: "find_idx (tl heading @ body @ ''##'' @ r) ''##'' = Some (length (tl heading) + length body)"
  shows "section_piece c heading = body"
proof -
  have dr: "drop (Suc (length p)) c = tl heading @ body @ ''##'' @ r"
    using c ne by (cases heading) simp_all
  have le: "Suc (length p) \<le> length c" using c ne by (cases heading) simp_all
  from find_idx_shift [of "Suc (length p)" c "''##''", OF _ le] dr nxt
  have "py_find_from c ''##'' (int (Suc (length p))) = int (Suc (length p) + (length (tl heading) + length body))"
    by simp
  moreover have "Suc (length (tl heading)) = length heading" using ne by (cases heading) simp_all
  ultimately have e: "py_find_from c ''##'' (int (length p) + 1) = int (length (p @ heading) + length body)"
    by (simp add: algebra_simps)
  have "section_piece c heading = py_slice ((p @ heading) @ body @ (''##'' @ r)) (int (length (p @ heading))) (int (length (p @ heading) + length body))"
    using i e c by (simp add: section_piece_def Let_def)
  then show ?thesis by (simp only: py_slice_mid)
qed

lemma next_after_description:
  "find_idx (tl ''## Description'' @ rest) ''##'' = map_option (\<lambda>k. 13 + k) (find_idx rest ''##'')"
  by (cases "find_idx rest ''##''") simp_all

lemma next_after_progress:
  "find_idx (tl ''## Progress'' @ rest) ''##'' = map_option (\<lambda>k. 10 + k) (find_idx rest ''##'')"
  by (cases "find_idx rest ''##''") simp_all

lemma next_after_completion:
  "find_idx (tl ''## Completion'' @ rest) ''##'' = map_option (\<lambda>k. 12 + k) (find_idx rest ''##'')"
  by (cases "find_idx rest ''##''") simp_all

lemma py_find_Some: "py_find s sub = int k \<Longrightarrow> find_idx s sub = Some k"
  by (simp add: py_find_def split: option.splits)

text \<open>
  C6. The claim is that each section runs to the next heading of the same level, so
  that the text under a deeper heading inside the section is part of it. The end of a
  section is the next occurrence of the two characters \<open>##\<close>, and a deeper heading
  \<open>###\<close> starts with them: the Description section of the document below ends before
  \<open>### Sub\<close>, and \<open>Bar\<close> is not extracted.
\<close>

theorem markdown_slice_stops_at_deeper_heading:
  "markdown_slice (Some ''## Description\<newline>Foo\<newline>### Sub\<newline>Bar\<newline>## Other'')
     = Some ''\<newline>Foo\<newline>''
   \<and> markdown_slice (Some ''## Description\<newline>Foo\<newline>### Sub\<newline>Bar\<newline>## Other'')
     \<noteq> Some ''\<newline>Foo\<newline>### Sub\<newline>Bar\<newline>''"
  by (simp add: markdown_slice_def py_eval)

text \<open>
  C6, amended. With a Description heading, the result of \<open>markdown_slice\<close> is the
  Description, Progress and Completion pieces in that order. When the content is
  \<open>p\<close>, the heading, \<open>b\<close>, \<open>##\<close> and \<open>r\<close>, with the heading first found at the end of
  \<open>p\<close> and \<open>##\<close> first found in what follows the heading at the end of \<open>b\<close>, the piece
  is \<open>b\<close>: the text from the end of the heading text to the next \<open>##\<close>, whatever the
  level of the heading that \<open>##\<close> begins. For Progress the content is the one with the
  linked Progress heading replaced by the plain one, and for Completion the one with
  both replaced; the Description heading is looked for in the content as it is.
\<close>

theorem markdown_slice_sections:
  "(py_find c ''## Description'' \<noteq> - 1 \<longrightarrow>
      markdown_slice (Some c) = Some (description_text c @ progress_text c @ completion_text c))
   \<and> (c = p @ ''## Description'' @ b @ ''##'' @ r
       \<and> py_find c ''## Description'' = int (length p)
       \<and> py_find (b @ ''##'' @ r) ''##'' = int (length b) \<longrightarrow>
      description_text c = b)
   \<and> (progress_normalised c = p @ ''## Progress'' @ b @ ''##'' @ r
       \<and> py_find (progress_normalised c) ''## Progress'' = int (length p)
       \<and> py_find (b @ ''##'' @ r) ''##'' = int (length b) \<longrightarrow>
      progress_text c = b)
   \<and> (completion_normalised c = p @ ''## Completion'' @ b @ ''##'' @ r
       \<and> py_find (completion_normalised c) ''## Completion'' = int (length p)
       \<and> py_find (b @ ''##'' @ r) ''##'' = int (length b) \<longrightarrow>
      completion_text c = b)"
proof (intro conjI impI)
  assume "py_find c ''## Description'' \<noteq> - 1"
  then show "markdown_slice (Some c)
      = Some (description_text c @ progress_text c @ completion_text c)"
    by (simp add: markdown_slice_pieces)
next
  assume a: "c = p @ ''## Description'' @ b @ ''##'' @ r
       \<and> py_find c ''## Description'' = int (length p)
       \<and> py_find (b @ ''##'' @ r) ''##'' = int (length b)"
  then have "find_idx (b @ ''##'' @ r) ''##'' = Some (length b)" by (simp add: py_find_Some)
  then have nxt: "find_idx (tl ''## Description'' @ b @ ''##'' @ r) ''##''
      = Some (length (tl ''## Description'') + length b)"
    by (simp only: next_after_description) simp
  have ne: "''## Description'' \<noteq> []" by simp
  from a have c: "c = p @ ''## Description'' @ b @ ''##'' @ r"
    and i: "py_find c ''## Description'' = int (length p)" by blast+
  from section_piece_between [OF c i ne nxt] show "description_text c = b"
    by (simp only: description_text_def)
next
  assume a: "progress_normalised c = p @ ''## Progress'' @ b @ ''##'' @ r
       \<and> py_find (progress_normalised c) ''## Progress'' = int (length p)
       \<and> py_find (b @ ''##'' @ r) ''##'' = int (length b)"
  then have "find_idx (b @ ''##'' @ r) ''##'' = Some (length b)" by (simp add: py_find_Some)
  then have nxt: "find_idx (tl ''## Progress'' @ b @ ''##'' @ r) ''##''
      = Some (length (tl ''## Progress'') + length b)"
    by (simp only: next_after_progress) simp
  have ne: "''## Progress'' \<noteq> []" by simp
  from a have c: "progress_normalised c = p @ ''## Progress'' @ b @ ''##'' @ r"
    and i: "py_find (progress_normalised c) ''## Progress'' = int (length p)" by blast+
  have "py_find (progress_normalised c) ''## Progress'' \<noteq> - 1" by (simp only: i)
  with section_piece_between [OF c i ne nxt] show "progress_text c = b"
    by (simp add: progress_text_def)
next
  assume a: "completion_normalised c = p @ ''## Completion'' @ b @ ''##'' @ r
       \<and> py_find (completion_normalised c) ''## Completion'' = int (length p)
       \<and> py_find (b @ ''##'' @ r) ''##'' = int (length b)"
  then have "find_idx (b @ ''##'' @ r) ''##'' = Some (length b)" by (simp add: py_find_Some)
  then have nxt: "find_idx (tl ''## Completion'' @ b @ ''##'' @ r) ''##''
      = Some (length (tl ''## Completion'') + length b)"
    by (simp only: next_after_completion) simp
  have ne: "''## Completion'' \<noteq> []" by simp
  from a have c: "completion_normalised c = p @ ''## Completion'' @ b @ ''##'' @ r"
    and i: "py_find (completion_normalised c) ''## Completion'' = int (length p)" by blast+
  have "py_find (completion_normalised c) ''## Completion'' \<noteq> - 1" by (simp only: i)
  with section_piece_between [OF c i ne nxt] show "completion_text c = b"
    by (simp add: completion_text_def)
qed


theorem markdown_slice_sections_witness:
  "markdown_slice (Some ''## Description\<newline>Foo\<newline>### Sub\<newline>Bar\<newline>## [Progress](javascript:)\<newline>P\<newline>## Completion\<newline>Z\<newline>## Other'')
     = Some ''\<newline>Foo\<newline>\<newline>P\<newline>\<newline>Z\<newline>''"
proof -
  let ?c = "''## Description\<newline>Foo\<newline>### Sub\<newline>Bar\<newline>## [Progress](javascript:)\<newline>P\<newline>## Completion\<newline>Z\<newline>## Other''"
  let ?n = "''## Description\<newline>Foo\<newline>### Sub\<newline>Bar\<newline>## Progress\<newline>P\<newline>## Completion\<newline>Z\<newline>## Other''"
  have pn: "progress_normalised ?c = ?n"
    by (simp add: progress_normalised_def py_eval)
  have cn: "completion_normalised ?c = ?n"
    by (simp add: completion_normalised_def pn) (simp add: py_eval)
  have d: "py_find ?c ''## Description'' = int (length ([] :: string))"
    "py_find (''\<newline>Foo\<newline>'' @ ''##'' @ ''# Sub\<newline>Bar\<newline>## [Progress](javascript:)\<newline>P\<newline>## Completion\<newline>Z\<newline>## Other'') ''##'' = int (length ''\<newline>Foo\<newline>'')"
    by (simp_all add: py_eval)
  from markdown_slice_sections [of ?c "[]" "''\<newline>Foo\<newline>''"
      "''# Sub\<newline>Bar\<newline>## [Progress](javascript:)\<newline>P\<newline>## Completion\<newline>Z\<newline>## Other''"] d
  have 0: "markdown_slice (Some ?c) = Some (description_text ?c @ progress_text ?c @ completion_text ?c)"
    and 1: "description_text ?c = ''\<newline>Foo\<newline>''"
    by simp_all
  have p: "py_find ?n ''## Progress'' = int (length ''## Description\<newline>Foo\<newline>### Sub\<newline>Bar\<newline>'')"
    "py_find (''\<newline>P\<newline>'' @ ''##'' @ '' Completion\<newline>Z\<newline>## Other'') ''##'' = int (length ''\<newline>P\<newline>'')"
    by (simp_all add: py_eval)
  from markdown_slice_sections [of ?c "''## Description\<newline>Foo\<newline>### Sub\<newline>Bar\<newline>''" "''\<newline>P\<newline>''"
      "'' Completion\<newline>Z\<newline>## Other''"] p pn
  have 2: "progress_text ?c = ''\<newline>P\<newline>''"
    by simp
  have k: "py_find ?n ''## Completion'' = int (length ''## Description\<newline>Foo\<newline>### Sub\<newline>Bar\<newline>## Progress\<newline>P\<newline>'')"
    "py_find (''\<newline>Z\<newline>'' @ ''##'' @ '' Other'') ''##'' = int (length ''\<newline>Z\<newline>'')"
    by (simp_all add: py_eval)
  from markdown_slice_sections [of ?c "''## Description\<newline>Foo\<newline>### Sub\<newline>Bar\<newline>## Progress\<newline>P\<newline>''" "''\<newline>Z\<newline>''"
      "'' Other''"] k cn
  have 3: "completion_text ?c = ''\<newline>Z\<newline>''"
    by simp
  from 0 1 2 3 show ?thesis by simp
qed

text \<open>
  C10. With a Description heading, the result of \<open>markdown_slice\<close> is the three pieces
  in order; and when no \<open>##\<close> follows the heading of a section, the failed search gives
  \<open>-1\<close> as the end of the slice, so the piece is the text after the heading without
  the last character of the document.
\<close>

theorem markdown_slice_last_section:
  "(py_find c ''## Description'' \<noteq> - 1 \<longrightarrow>
      markdown_slice (Some c) = Some (description_text c @ progress_text c @ completion_text c))
   \<and> (py_find c ''## Description'' \<noteq> - 1
       \<and> py_find_from c ''##'' (py_find c ''## Description'' + 1) = - 1 \<longrightarrow>
      description_text c = butlast (drop (nat (py_find c ''## Description'') + 14) c))
   \<and> (py_find (progress_normalised c) ''## Progress'' \<noteq> - 1
       \<and> py_find_from (progress_normalised c) ''##''
            (py_find (progress_normalised c) ''## Progress'' + 1) = - 1 \<longrightarrow>
      progress_text c =
        butlast (drop (nat (py_find (progress_normalised c) ''## Progress'') + 11)
                   (progress_normalised c)))
   \<and> (py_find (completion_normalised c) ''## Completion'' \<noteq> - 1
       \<and> py_find_from (completion_normalised c) ''##''
            (py_find (completion_normalised c) ''## Completion'' + 1) = - 1 \<longrightarrow>
      completion_text c =
        butlast (drop (nat (py_find (completion_normalised c) ''## Completion'') + 13)
                   (completion_normalised c)))"
proof (intro conjI impI)
  assume "py_find c ''## Description'' \<noteq> - 1"
  then show "markdown_slice (Some c)
      = Some (description_text c @ progress_text c @ completion_text c)"
    by (simp add: markdown_slice_pieces)
next
  assume "py_find c ''## Description'' \<noteq> - 1
       \<and> py_find_from c ''##'' (py_find c ''## Description'' + 1) = - 1"
  then show "description_text c = butlast (drop (nat (py_find c ''## Description'') + 14) c)"
    using section_piece_last [of c "''## Description''" 14] by (simp add: description_text_def)
next
  assume "py_find (progress_normalised c) ''## Progress'' \<noteq> - 1
       \<and> py_find_from (progress_normalised c) ''##''
            (py_find (progress_normalised c) ''## Progress'' + 1) = - 1"
  then show "progress_text c =
        butlast (drop (nat (py_find (progress_normalised c) ''## Progress'') + 11)
                   (progress_normalised c))"
    using section_piece_last [of "progress_normalised c" "''## Progress''" 11]
    by (simp add: progress_text_def)
next
  assume "py_find (completion_normalised c) ''## Completion'' \<noteq> - 1
       \<and> py_find_from (completion_normalised c) ''##''
            (py_find (completion_normalised c) ''## Completion'' + 1) = - 1"
  then show "completion_text c =
        butlast (drop (nat (py_find (completion_normalised c) ''## Completion'') + 13)
                   (completion_normalised c))"
    using section_piece_last [of "completion_normalised c" "''## Completion''" 13]
    by (simp add: completion_text_def)
qed

theorem markdown_slice_last_section_witness:
  "markdown_slice (Some ''## Description\<newline>Foo'') = Some ''\<newline>Fo''
   \<and> progress_text ''## Description\<newline>Foo\<newline>## Progress\<newline>Bar'' = ''\<newline>Ba''
   \<and> completion_text ''## Description\<newline>Foo\<newline>## Completion\<newline>Baz'' = ''\<newline>Ba''"
proof -
  let ?d = "''## Description\<newline>Foo''"
  let ?p = "''## Description\<newline>Foo\<newline>## Progress\<newline>Bar''"
  let ?c = "''## Description\<newline>Foo\<newline>## Completion\<newline>Baz''"
  have d: "py_find ?d ''## Description'' = 0" "py_find_from ?d ''##'' 1 = - 1"
    by (simp_all add: py_eval)
  have rest: "progress_text ?d = []" "completion_text ?d = []"
    by (simp_all add: progress_text_def completion_text_def progress_normalised_def
        completion_normalised_def py_eval)
  from markdown_slice_last_section [of ?d] d rest
  have 1: "markdown_slice (Some ?d) = Some ''\<newline>Fo''" by simp
  have pn: "progress_normalised ?p = ?p"
    by (simp add: progress_normalised_def py_eval)
  have p: "py_find ?p ''## Progress'' = 19" "py_find_from ?p ''##'' 20 = - 1"
    by (simp_all add: py_eval)
  from markdown_slice_last_section [of ?p] pn p
  have 2: "progress_text ?p = ''\<newline>Ba''" by simp
  have cn: "completion_normalised ?c = ?c"
    by (simp add: completion_normalised_def progress_normalised_def py_eval)
  have c: "py_find ?c ''## Completion'' = 19" "py_find_from ?c ''##'' 20 = - 1"
    by (simp_all add: py_eval)
  from markdown_slice_last_section [of ?c] cn c
  have 3: "completion_text ?c = ''\<newline>Ba''" by simp
  from 1 2 3 show ?thesis by simp
qed


end
